theory Spec2Isabelle
  imports Main
begin

section \<open>JavaScript values used by server.js\<close>

text \<open>
  Reading a property \<open>obj[k]\<close> of a plain object first looks at the object's own
  properties and then at \<open>Object.prototype\<close>. Both \<open>SUBJECTS\<close> (an object literal) and
  the parsed JSON document are plain objects, so \<open>obj['constructor']\<close>,
  \<open>obj['toString']\<close>, ... are defined (functions, or \<open>Object.prototype\<close> itself for
  \<open>__proto__\<close>) although they are not own properties.
\<close>

datatype 'a member = Own 'a | Inherited | Undefined

definition objectPrototypeKeys :: "string list" where
  "objectPrototypeKeys =
     [''constructor'', ''__defineGetter__'', ''__defineSetter__'', ''hasOwnProperty'',
      ''__lookupGetter__'', ''__lookupSetter__'', ''isPrototypeOf'', ''propertyIsEnumerable'',
      ''toString'', ''valueOf'', ''__proto__'', ''toLocaleString'']"

definition js_get :: "(string \<rightharpoonup> 'a) \<Rightarrow> string \<Rightarrow> 'a member" where
  "js_get obj k =
     (case obj k of
        Some v \<Rightarrow> Own v
      | None \<Rightarrow> if k \<in> set objectPrototypeKeys then Inherited else Undefined)"

text \<open>\<open>!x\<close> for a property whose defined values are objects or functions (all truthy).\<close>

definition not_member :: "'a member \<Rightarrow> bool" where
  "not_member p = (case p of Undefined \<Rightarrow> True | _ \<Rightarrow> False)"

text \<open>
  A field of the request body is absent (\<open>None\<close>) or a string. \<open>!s\<close> holds for
  \<open>undefined\<close> and for the empty string; \<open>a || b\<close> is \<open>a\<close> unless \<open>a\<close> is falsy.
\<close>

definition falsy :: "string option \<Rightarrow> bool" where
  "falsy v = (case v of None \<Rightarrow> True | Some s \<Rightarrow> s = [])"

definition or_else :: "string option \<Rightarrow> string \<Rightarrow> string" where
  "or_else v d = (case v of None \<Rightarrow> d | Some s \<Rightarrow> if s = [] then d else s)"

text \<open>\<open>Number.prototype.toString(36)\<close> on a non-negative integer: digits \<open>0-9a-z\<close>.\<close>

definition digits36 :: string where
  "digits36 = ''0123456789abcdefghijklmnopqrstuvwxyz''"

definition digit36 :: "nat \<Rightarrow> char" where
  "digit36 d = digits36 ! d"

fun toString36 :: "nat \<Rightarrow> string" where
  "toString36 n =
     (if n < 36 then [digit36 n] else toString36 (n div 36) @ [digit36 (n mod 36)])"

declare toString36.simps [simp del]

text \<open>\<open>Array.prototype.findIndex\<close>: the first index whose element satisfies the
  predicate; \<open>None\<close> stands for \<open>-1\<close>.\<close>

fun findIndex :: "('a \<Rightarrow> bool) \<Rightarrow> 'a list \<Rightarrow> nat option" where
  "findIndex P [] = None"
| "findIndex P (x # xs) = (if P x then Some 0 else map_option Suc (findIndex P xs))"

text \<open>\<open>list.splice(idx, 1)\<close>: the array without the element at \<open>idx\<close>.\<close>

definition splice1 :: "nat \<Rightarrow> 'a list \<Rightarrow> 'a list" where
  "splice1 idx xs = take idx xs @ drop (Suc idx) xs"

section \<open>Data model\<close>

record subject =
  name :: string
  containerId :: string

definition SUBJECTS :: "(string \<times> subject) list" where
  "SUBJECTS =
     [(''toc'', \<lparr>name = ''Theory of Computation'', containerId = ''tocLinks''\<rparr>),
      (''ai'', \<lparr>name = ''Artificial Intelligence'', containerId = ''aiLinks''\<rparr>),
      (''sepm'', \<lparr>name = ''Software Engineering Project Management'', containerId = ''sepmLinks''\<rparr>),
      (''cn'', \<lparr>name = ''Computer Networks'', containerId = ''cnLinks''\<rparr>),
      (''rm'', \<lparr>name = ''Research Methodology'', containerId = ''rmLinks''\<rparr>)]"

definition Object_keys :: "(string \<times> 'a) list \<Rightarrow> string list" where
  "Object_keys obj = map fst obj"

text \<open>\<open>SUBJECTS[key]\<close>.\<close>

definition SUBJECTS_at :: "string \<Rightarrow> subject member" where
  "SUBJECTS_at key = js_get (map_of SUBJECTS) key"

text \<open>
  A link as both backends store it. \<open>link_id\<close> is the field \<open>_id\<close> (absent in a
  hand-written file entry: line 133 reads it as \<open>l._id || ''\<close>); \<open>addedAt\<close> is the
  instant in milliseconds since the epoch, which the file variant writes with
  \<open>toISOString\<close> and the database variant stores as a \<open>Date\<close>.
\<close>

record link =
  link_id :: "string option"
  subjectKey :: string
  title :: string
  url :: string
  addedBy :: string
  addedAt :: nat

text \<open>One entry \<open>{ name, links }\<close> of data.json; the document maps keys to entries.\<close>

record entry =
  e_name :: string
  links :: "link list"

type_synonym document = "string \<rightharpoonup> entry"

text \<open>
  The stored state: the documents of the MongoDB collection \<open>links\<close> in insertion
  order, and data.json (\<open>None\<close> when the file does not exist).
\<close>

record state =
  collection :: "link list"
  dataFile :: "document option"

text \<open>The body of a POST: \<open>{ title, url, addedBy }\<close>, each field a string or absent
  (\<open>null\<close> counts as absent; values of other JSON types are not modelled). The request
  itself carries \<open>body option\<close>, for \<open>req.body || {}\<close>.\<close>

record body =
  b_title :: "string option"
  b_url :: "string option"
  b_addedBy :: "string option"

definition emptyBody :: body where
  "emptyBody = \<lparr>b_title = None, b_url = None, b_addedBy = None\<rparr>"

text \<open>
  What the platform supplies to one POST: the value of \<open>Date.now()\<close> and of
  \<open>new Date()\<close> on line 112 (two readings of the clock; the second is also the
  schema default \<open>Date.now\<close> of \<open>addedAt\<close> in the database variant), and the
  \<open>ObjectId\<close> Mongoose generates for a new document.
\<close>

record tick =
  dateNow :: nat
  newDate :: nat
  objectId :: string

text \<open>
  Built-ins whose algorithms are not part of the repository: whether \<open>new URL(url)\<close>
  returns (rather than throws), and the cast of a string to the schema's \<open>ObjectId\<close>
  type for \<open>_id\<close> (\<open>None\<close>: Mongoose rejects the query with a CastError).
\<close>

record runtime =
  urlParses :: "string \<Rightarrow> bool"
  castObjectId :: "string \<Rightarrow> string option"

text \<open>Responses: \<open>res.status(n).json(payload)\<close>.\<close>

record subject_view =
  v_name :: string
  v_links :: "link list"

datatype payload =
    ErrorMsg string
  | LinkP link
  | LinksP "link list"
  | SubjectsP "string \<rightharpoonup> subject_view"

datatype response = Response nat payload

section \<open>JSON fallback helpers (lines 40-60)\<close>

definition defaultJsonData :: document where
  "defaultJsonData =
     fold (\<lambda>(k, subj) base. base(k \<mapsto> \<lparr>e_name = name subj, links = []\<rparr>)) SUBJECTS Map.empty"

definition ensureDataFile :: "document option \<Rightarrow> document option" where
  "ensureDataFile f = (case f of None \<Rightarrow> Some defaultJsonData | Some d \<Rightarrow> Some d)"

text \<open>\<open>readJsonData\<close> returns the parsed document (\<open>None\<close>: \<open>fs.readJson\<close> throws
  because the file is missing) and the file as \<open>ensureDataFile\<close> left it.\<close>

definition readJsonData :: "document option \<Rightarrow> document option \<times> document option" where
  "readJsonData f = (let f' = ensureDataFile f in (f', f'))"

definition writeJsonData :: "document \<Rightarrow> document option \<Rightarrow> document option" where
  "writeJsonData d f = Some d"

text \<open>The document a handler works on after \<open>readJsonData\<close>: data.json, or the default
  document when the file was missing.\<close>

definition stored :: "document option \<Rightarrow> document" where
  "stored f = (case f of None \<Rightarrow> defaultJsonData | Some d \<Rightarrow> d)"

text \<open>\<open>data[key]?.links || []\<close>.\<close>

definition links_or_empty :: "entry member \<Rightarrow> link list" where
  "links_or_empty p = (case p of Own e \<Rightarrow> links e | _ \<Rightarrow> [])"

section \<open>The Mongoose model \<open>Link\<close> (lines 30-38 and the queries of the handlers)\<close>

text \<open>
  What Mongoose does is not in the repository; the three operations below follow the
  schema on lines 30-36 and the query objects written in the handlers.

  \<open>Link.find({ subjectKey: key }).sort({ addedAt: 1 }).lean()\<close>: the documents of that
  subject, ascending by \<open>addedAt\<close> (documents with equal \<open>addedAt\<close> in insertion order).
\<close>

definition Link_find :: "string \<Rightarrow> link list \<Rightarrow> link list" where
  "Link_find key coll = sort_key addedAt (filter (\<lambda>l. subjectKey l = key) coll)"

text \<open>
  \<open>Link.create({ subjectKey, title, url, addedBy })\<close>: the schema validates the
  document (\<open>subjectKey\<close> in \<open>Object.keys(SUBJECTS)\<close>, \<open>title\<close> and \<open>url\<close> required),
  fills in \<open>_id\<close> and \<open>addedAt\<close>, and inserts it. \<open>None\<close>: validation fails and the
  promise rejects.
\<close>

definition Link_create :: "string \<Rightarrow> string \<Rightarrow> string \<Rightarrow> string \<Rightarrow> tick \<Rightarrow> link list
    \<Rightarrow> (link \<times> link list) option" where
  "Link_create key t u who tk coll =
     (if key \<in> set (Object_keys SUBJECTS) \<and> t \<noteq> [] \<and> u \<noteq> [] then
        let created = \<lparr>link_id = Some (objectId tk), subjectKey = key, title = t, url = u,
                        addedBy = who, addedAt = newDate tk\<rparr>
        in Some (created, coll @ [created])
      else None)"

text \<open>
  \<open>Link.findOneAndDelete({ _id: id, subjectKey: key }).lean()\<close>: \<open>None\<close> when the
  cast of the id fails (the promise rejects); otherwise the deleted document, or
  \<open>null\<close>, and the collection afterwards.
\<close>

definition Link_findOneAndDelete :: "runtime \<Rightarrow> string \<Rightarrow> string \<Rightarrow> link list
    \<Rightarrow> (link option \<times> link list) option" where
  "Link_findOneAndDelete rt ident key coll =
     (case castObjectId rt ident of
        None \<Rightarrow> None
      | Some oid \<Rightarrow>
          (case findIndex (\<lambda>l. link_id l = Some oid \<and> subjectKey l = key) coll of
             None \<Rightarrow> Some (None, coll)
           | Some idx \<Rightarrow> Some (Some (coll ! idx), splice1 idx coll)))"

section \<open>API routes (lines 62-142)\<close>

text \<open>
  Every handler takes the flag \<open>USE_DB\<close> and the stored state and returns the response
  and the state afterwards. A handler runs from start to end without another request in
  between; failures of the disk or of the database connection are not modelled.

  In \<open>getAllSubjects\<close> the loop over \<open>Object.keys(SUBJECTS)\<close> is a fold over the
  entries of the registry, \<open>subj\<close> being \<open>SUBJECTS[key]\<close>. In \<open>addLink\<close>, past the first
  test \<open>title\<close> and \<open>url\<close> are non-empty strings, read here as \<open>or_else (b_title b) []\<close>
  and \<open>or_else (b_url b) []\<close>.
\<close>

definition getAllSubjects :: "bool \<Rightarrow> state \<Rightarrow> response \<times> state" where
  "getAllSubjects USE_DB s =
     (if USE_DB then
        (Response 200 (SubjectsP
           (fold (\<lambda>(key, subj) result.
                    result(key \<mapsto> \<lparr>v_name = name subj, v_links = Link_find key (collection s)\<rparr>))
              SUBJECTS Map.empty)), s)
      else
        (case readJsonData (dataFile s) of
           (None, f) \<Rightarrow> (Response 500 (ErrorMsg ''Failed to read subjects''), s\<lparr>dataFile := f\<rparr>)
         | (Some data, f) \<Rightarrow>
             (Response 200 (SubjectsP
                (fold (\<lambda>(key, subj) result.
                         result(key \<mapsto> \<lparr>v_name = name subj,
                                         v_links = links_or_empty (js_get data key)\<rparr>))
                   SUBJECTS Map.empty)), s\<lparr>dataFile := f\<rparr>)))"

definition getSubjectLinks :: "bool \<Rightarrow> string \<Rightarrow> state \<Rightarrow> response \<times> state" where
  "getSubjectLinks USE_DB key s =
     (if not_member (SUBJECTS_at key) then (Response 404 (ErrorMsg ''Subject not found''), s)
      else if USE_DB then (Response 200 (LinksP (Link_find key (collection s))), s)
      else
        (case readJsonData (dataFile s) of
           (None, f) \<Rightarrow> (Response 500 (ErrorMsg ''Failed to read links''), s\<lparr>dataFile := f\<rparr>)
         | (Some data, f) \<Rightarrow>
             (Response 200 (LinksP (links_or_empty (js_get data key))), s\<lparr>dataFile := f\<rparr>)))"

definition addLink :: "runtime \<Rightarrow> bool \<Rightarrow> string \<Rightarrow> body option \<Rightarrow> tick \<Rightarrow> state
    \<Rightarrow> response \<times> state" where
  "addLink rt USE_DB key req_body tk s =
     (let b = (case req_body of None \<Rightarrow> emptyBody | Some b \<Rightarrow> b) in
      if falsy (b_title b) \<or> falsy (b_url b) then
        (Response 400 (ErrorMsg ''Missing title or url''), s)
      else if not_member (SUBJECTS_at key) then (Response 404 (ErrorMsg ''Subject not found''), s)
      else if \<not> urlParses rt (or_else (b_url b) []) then
        (Response 400 (ErrorMsg ''Invalid URL''), s)
      else if USE_DB then
        (case Link_create key (or_else (b_title b) []) (or_else (b_url b) [])
                (or_else (b_addedBy b) ''admin'') tk (collection s) of
           None \<Rightarrow> (Response 500 (ErrorMsg ''Failed to add link''), s)
         | Some (created, coll) \<Rightarrow> (Response 201 (LinkP created), s\<lparr>collection := coll\<rparr>))
      else
        (case readJsonData (dataFile s) of
           (None, f) \<Rightarrow> (Response 500 (ErrorMsg ''Failed to add link''), s\<lparr>dataFile := f\<rparr>)
         | (Some data, f) \<Rightarrow>
             (let newLink = \<lparr>link_id = Some (toString36 (dateNow tk)), subjectKey = key,
                             title = or_else (b_title b) [], url = or_else (b_url b) [],
                             addedBy = or_else (b_addedBy b) ''admin'', addedAt = newDate tk\<rparr>
              in case js_get data key of
                   Own e \<Rightarrow>
                     (let data' = data(key \<mapsto> e\<lparr>links := links e @ [newLink]\<rparr>)
                      in (Response 201 (LinkP newLink), s\<lparr>dataFile := writeJsonData data' f\<rparr>))
                 | _ \<Rightarrow> (Response 500 (ErrorMsg ''Failed to add link''), s\<lparr>dataFile := f\<rparr>))))"

definition deleteLink :: "runtime \<Rightarrow> bool \<Rightarrow> string \<Rightarrow> string \<Rightarrow> state \<Rightarrow> response \<times> state" where
  "deleteLink rt USE_DB key ident s =
     (if not_member (SUBJECTS_at key) then (Response 404 (ErrorMsg ''Subject not found''), s)
      else if USE_DB then
        (case Link_findOneAndDelete rt ident key (collection s) of
           None \<Rightarrow> (Response 500 (ErrorMsg ''Failed to delete link''), s)
         | Some (None, coll) \<Rightarrow> (Response 404 (ErrorMsg ''Link not found''), s\<lparr>collection := coll\<rparr>)
         | Some (Some deleted, coll) \<Rightarrow> (Response 200 (LinkP deleted), s\<lparr>collection := coll\<rparr>))
      else
        (case readJsonData (dataFile s) of
           (None, f) \<Rightarrow> (Response 500 (ErrorMsg ''Failed to delete link''), s\<lparr>dataFile := f\<rparr>)
         | (Some data, f) \<Rightarrow>
             (let list = links_or_empty (js_get data key) in
              case findIndex (\<lambda>l. or_else (link_id l) [] = ident) list of
                None \<Rightarrow> (Response 404 (ErrorMsg ''Link not found''), s\<lparr>dataFile := f\<rparr>)
              | Some idx \<Rightarrow>
                  (let removed = list ! idx;
                       data' = (case js_get data key of
                                  Own e \<Rightarrow> data(key \<mapsto> e\<lparr>links := splice1 idx list\<rparr>)
                                | _ \<Rightarrow> data)
                   in (Response 200 (LinkP removed), s\<lparr>dataFile := writeJsonData data' f\<rparr>)))))"

section \<open>Sequences of requests\<close>

text \<open>
  The four routes, with what the platform supplies to a POST. \<open>handle\<close> is the
  dispatch Express does on method and path; \<open>run\<close> serves a list of requests one
  after the other and returns the stored state at the end.
\<close>

datatype request =
    GetAll
  | GetLinks string
  | Post string "body option" tick
  | Delete string string

fun handle :: "runtime \<Rightarrow> bool \<Rightarrow> request \<Rightarrow> state \<Rightarrow> response \<times> state" where
  "handle rt USE_DB GetAll s = getAllSubjects USE_DB s"
| "handle rt USE_DB (GetLinks key) s = getSubjectLinks USE_DB key s"
| "handle rt USE_DB (Post key req_body tk) s = addLink rt USE_DB key req_body tk s"
| "handle rt USE_DB (Delete key ident) s = deleteLink rt USE_DB key ident s"

fun run :: "runtime \<Rightarrow> bool \<Rightarrow> request list \<Rightarrow> state \<Rightarrow> state" where
  "run rt USE_DB [] s = s"
| "run rt USE_DB (r # rs) s = run rt USE_DB rs (snd (handle rt USE_DB r s))"

text \<open>Before the first request: an empty collection, and no data.json yet.\<close>

definition initialState :: state where
  "initialState = \<lparr>collection = [], dataFile = None\<rparr>"

text \<open>The instants at which the POSTs of a request list read the clock for \<open>addedAt\<close>,
  and for \<open>_id\<close> in the file variant.\<close>

fun postTimes :: "request list \<Rightarrow> nat list" where
  "postTimes [] = []"
| "postTimes (Post key req_body tk # rs) = newDate tk # postTimes rs"
| "postTimes (r # rs) = postTimes rs"

fun postIdTimes :: "request list \<Rightarrow> nat list" where
  "postIdTimes [] = []"
| "postIdTimes (Post key req_body tk # rs) = dateNow tk # postIdTimes rs"
| "postIdTimes (r # rs) = postIdTimes rs"

text \<open>All links of data.json, subject by subject in the order of the registry.\<close>

definition fileLinks :: "document option \<Rightarrow> link list" where
  "fileLinks f = concat (map (\<lambda>k. links_or_empty (js_get (stored f) k)) (Object_keys SUBJECTS))"

text \<open>
  A runtime to evaluate the handlers on the requests of the examples below. On the
  strings used there it answers as Node does: \<open>new URL\<close> accepts
  \<open>https://example.com\<close> and \<open>https://x.test/cn1\<close> and throws on \<open>not-a-url\<close>; a string
  of 24 hexadecimal digits casts to an \<open>ObjectId\<close> and \<open>abc\<close> does not.
\<close>

definition exampleRuntime :: runtime where
  "exampleRuntime =
     \<lparr>urlParses = (\<lambda>u. u = ''https://example.com'' \<or> u = ''https://x.test/cn1''),
      castObjectId = (\<lambda>s. if length s = 24 \<and> list_all (\<lambda>c. c \<in> set ''0123456789abcdef'') s
                            then Some s else None)\<rparr>"

section \<open>The registry\<close>

lemma Object_keys_SUBJECTS:
  "set (Object_keys SUBJECTS) = {''toc'', ''ai'', ''sepm'', ''cn'', ''rm''}"
  by (simp add: Object_keys_def SUBJECTS_def)

lemma map_of_SUBJECTS_Some:
  "key \<in> set (Object_keys SUBJECTS) \<Longrightarrow> \<exists>subj. map_of SUBJECTS key = Some subj"
proof -
  assume "key \<in> set (Object_keys SUBJECTS)"
  then have "map_of SUBJECTS key \<noteq> None"
    by (simp add: Object_keys_def map_of_eq_None_iff)
  then show ?thesis by blast
qed

text \<open>The test \<open>if (!subj)\<close> lets through the registry and every name that
  \<open>Object.prototype\<close> defines.\<close>

lemma not_member_SUBJECTS_at:
  "not_member (SUBJECTS_at key) \<longleftrightarrow>
     key \<notin> set (Object_keys SUBJECTS) \<and> key \<notin> set objectPrototypeKeys"
proof -
  have "key \<in> set (Object_keys SUBJECTS) \<longleftrightarrow> map_of SUBJECTS key \<noteq> None"
    by (simp add: Object_keys_def map_of_eq_None_iff)
  then show ?thesis
    by (auto simp: not_member_def SUBJECTS_at_def js_get_def split: option.splits)
qed

lemma known_not_member [simp]:
  "key \<in> set (Object_keys SUBJECTS) \<Longrightarrow> \<not> not_member (SUBJECTS_at key)"
  by (simp add: not_member_SUBJECTS_at)

lemma known_not_inherited:
  "key \<in> set (Object_keys SUBJECTS) \<Longrightarrow> key \<notin> set objectPrototypeKeys"
  by (auto simp: Object_keys_def SUBJECTS_def objectPrototypeKeys_def)

section \<open>Unknown subject keys\<close>

text \<open>
  A name inherited from \<open>Object.prototype\<close> passes the subject test although it is
  not in the registry: \<open>GET /api/subjects/constructor/links\<close> is answered with 200 and
  an empty list (and creates data.json when it was missing).
\<close>

lemma inherited_key_not_rejected:
  "getSubjectLinks False ''constructor'' initialState
     = (Response 200 (LinksP []), initialState\<lparr>dataFile := Some defaultJsonData\<rparr>)"
  by (simp add: getSubjectLinks_def not_member_SUBJECTS_at Object_keys_def SUBJECTS_def
      objectPrototypeKeys_def readJsonData_def ensureDataFile_def initialState_def
      links_or_empty_def js_get_def defaultJsonData_def Let_def)

text \<open>
  Claim C1, as amended. For a key that is neither in the registry
  \<open>{toc, ai, sepm, cn, rm}\<close> nor a name defined by \<open>Object.prototype\<close>, in both
  backends and in every state: \<open>getSubjectLinks\<close> and \<open>deleteLink\<close> answer 404
  "Subject not found"; \<open>addLink\<close> answers 400 "Missing title or url" when the title or
  the url of the body is absent or empty, and 404 "Subject not found" otherwise (also
  when the url does not parse); in each case the stored state is returned unchanged.
\<close>

theorem unknown_key_rejected:
  assumes "key \<notin> set (Object_keys SUBJECTS)" and "key \<notin> set objectPrototypeKeys"
  shows "getSubjectLinks USE_DB key s = (Response 404 (ErrorMsg ''Subject not found''), s)
    \<and> deleteLink rt USE_DB key ident s = (Response 404 (ErrorMsg ''Subject not found''), s)
    \<and> addLink rt USE_DB key req_body tk s =
        (if falsy (b_title (case req_body of None \<Rightarrow> emptyBody | Some b \<Rightarrow> b))
            \<or> falsy (b_url (case req_body of None \<Rightarrow> emptyBody | Some b \<Rightarrow> b))
         then (Response 400 (ErrorMsg ''Missing title or url''), s)
         else (Response 404 (ErrorMsg ''Subject not found''), s))"
proof -
  have nm: "not_member (SUBJECTS_at key)"
    using assms by (simp add: not_member_SUBJECTS_at)
  show ?thesis
    by (simp add: getSubjectLinks_def deleteLink_def addLink_def nm Let_def)
qed

theorem unknown_key_rejected_witness:
  "getSubjectLinks False ''xyz'' initialState
      = (Response 404 (ErrorMsg ''Subject not found''), initialState)
    \<and> deleteLink exampleRuntime False ''xyz'' ''rs'' initialState
      = (Response 404 (ErrorMsg ''Subject not found''), initialState)
    \<and> addLink exampleRuntime False ''xyz''
        (Some \<lparr>b_title = Some ''T'', b_url = Some ''https://example.com'', b_addedBy = None\<rparr>)
        \<lparr>dateNow = 1000, newDate = 1000, objectId = []\<rparr> initialState
      = (Response 404 (ErrorMsg ''Subject not found''), initialState)"
  using unknown_key_rejected [of "''xyz''" False initialState exampleRuntime "''rs''"
     "Some \<lparr>b_title = Some ''T'', b_url = Some ''https://example.com'', b_addedBy = None\<rparr>"
     "\<lparr>dateNow = 1000, newDate = 1000, objectId = []\<rparr>"]
  by (simp add: Object_keys_def SUBJECTS_def objectPrototypeKeys_def falsy_def)

text \<open>C1 as stated fails: a POST under the unknown key \<open>xyz\<close> whose body has no
  title is answered with 400, not 404, because the body is checked first.\<close>

theorem unknown_key_missing_title_counterexample:
  "''xyz'' \<notin> set (Object_keys SUBJECTS) \<and>
   addLink exampleRuntime False ''xyz''
      (Some \<lparr>b_title = None, b_url = Some ''https://example.com'', b_addedBy = None\<rparr>)
      \<lparr>dateNow = 1000, newDate = 1000, objectId = []\<rparr> initialState
    = (Response 400 (ErrorMsg ''Missing title or url''), initialState)"
  by (simp add: Object_keys_def SUBJECTS_def addLink_def falsy_def)

section \<open>Reading the store\<close>

lemma fold_update_map_of:
  "distinct (map fst xs) \<Longrightarrow>
   fold (\<lambda>(k, v) m. m(k \<mapsto> F k v)) xs m0 =
     (\<lambda>k. case map_of xs k of Some v \<Rightarrow> Some (F k v) | None \<Rightarrow> m0 k)"
proof (induction xs arbitrary: m0)
  case Nil
  then show ?case by simp
next
  case (Cons p xs)
  obtain k v where p: "p = (k, v)" by (cases p)
  from Cons.prems p have notin: "k \<notin> fst ` set xs" and d: "distinct (map fst xs)"
    by auto
  have none: "map_of xs k = None"
    using notin by (simp add: map_of_eq_None_iff)
  have "fold (\<lambda>(k, v) m. m(k \<mapsto> F k v)) (p # xs) m0
      = fold (\<lambda>(k, v) m. m(k \<mapsto> F k v)) xs (m0(k \<mapsto> F k v))"
    by (simp add: p)
  also have "\<dots> = (\<lambda>k'. case map_of xs k' of Some v' \<Rightarrow> Some (F k' v')
                        | None \<Rightarrow> (m0(k \<mapsto> F k v)) k')"
    by (rule Cons.IH [OF d])
  also have "\<dots> = (\<lambda>k'. case map_of (p # xs) k' of Some v' \<Rightarrow> Some (F k' v') | None \<Rightarrow> m0 k')"
    by (rule ext) (simp add: p none split: option.splits)
  finally show ?case .
qed

lemma distinct_SUBJECTS: "distinct (map fst SUBJECTS)"
  by (simp add: SUBJECTS_def)

lemma map_of_SUBJECTS_iff:
  "(\<exists>subj. map_of SUBJECTS key = Some subj) \<longleftrightarrow> key \<in> set (Object_keys SUBJECTS)"
  using map_of_eq_None_iff [of SUBJECTS key] by (auto simp: Object_keys_def)

lemma dom_fold_SUBJECTS:
  "dom (fold (\<lambda>(k, v) m. m(k \<mapsto> F k v)) SUBJECTS Map.empty) = set (Object_keys SUBJECTS)"
proof -
  have "\<And>key. key \<in> dom (fold (\<lambda>(k, v) m. m(k \<mapsto> F k v)) SUBJECTS Map.empty)
      \<longleftrightarrow> key \<in> set (Object_keys SUBJECTS)"
    unfolding map_of_SUBJECTS_iff [symmetric]
    by (auto simp: fold_update_map_of [OF distinct_SUBJECTS] split: option.splits)
  then show ?thesis by blast
qed

lemma dom_defaultJsonData: "dom defaultJsonData = set (Object_keys SUBJECTS)"
  unfolding defaultJsonData_def by (rule dom_fold_SUBJECTS)

lemma defaultJsonData_links:
  "defaultJsonData k = Some e \<Longrightarrow> links e = []"
  by (auto simp: defaultJsonData_def fold_update_map_of [OF distinct_SUBJECTS]
        split: option.splits)

lemma ensureDataFile_Some: "\<exists>d. ensureDataFile f = Some d"
  by (simp add: ensureDataFile_def split: option.splits)

lemma ensureDataFile_idem [simp]: "ensureDataFile (ensureDataFile f) = ensureDataFile f"
  by (simp add: ensureDataFile_def split: option.splits)

lemma ensureDataFile_Some_eq [simp]: "ensureDataFile (Some d) = Some d"
  by (simp add: ensureDataFile_def)

lemma getSubjectLinks_file:
  assumes "\<not> not_member (SUBJECTS_at key)" and "ensureDataFile (dataFile s) = Some d"
  shows "getSubjectLinks False key s =
     (Response 200 (LinksP (links_or_empty (js_get d key))), s\<lparr>dataFile := Some d\<rparr>)"
  using assms by (simp add: getSubjectLinks_def readJsonData_def Let_def)

lemma getSubjectLinks_db:
  assumes "\<not> not_member (SUBJECTS_at key)"
  shows "getSubjectLinks True key s = (Response 200 (LinksP (Link_find key (collection s))), s)"
  using assms by (simp add: getSubjectLinks_def)

section \<open>Listing all subjects\<close>

text \<open>
  Claim C5. In both backends and in every state, \<open>getAllSubjects\<close> answers 200 with a
  mapping whose keys are exactly the keys of the registry; for every known subject the
  entry carries the display name of the registry and the links of that subject as they
  are stored: in the database variant the documents of the collection with that
  \<open>subjectKey\<close>, ascending by \<open>addedAt\<close>; in the file variant the array stored under
  the key in data.json, and the empty sequence when the file or the entry is missing.
  It is the sequence \<open>getSubjectLinks\<close> returns for that subject in the same state.
\<close>

theorem getAllSubjects_complete:
  assumes "key \<in> set (Object_keys SUBJECTS)"
  shows "\<exists>result s' subj ls.
     getAllSubjects USE_DB s = (Response 200 (SubjectsP result), s')
     \<and> dom result = set (Object_keys SUBJECTS)
     \<and> map_of SUBJECTS key = Some subj
     \<and> ls = (if USE_DB then sort_key addedAt (filter (\<lambda>l. subjectKey l = key) (collection s))
             else case dataFile s of
                    None \<Rightarrow> []
                  | Some d \<Rightarrow> (case d key of None \<Rightarrow> [] | Some e \<Rightarrow> links e))
     \<and> fst (getSubjectLinks USE_DB key s) = Response 200 (LinksP ls)
     \<and> result key = Some \<lparr>v_name = name subj, v_links = ls\<rparr>"
proof -
  obtain subj where subj: "map_of SUBJECTS key = Some subj"
    using map_of_SUBJECTS_Some [OF assms] by blast
  obtain d where d: "ensureDataFile (dataFile s) = Some d"
    using ensureDataFile_Some by blast
  have nm: "\<not> not_member (SUBJECTS_at key)" using assms by simp
  show ?thesis
  proof (cases USE_DB)
    case True
    let ?ls = "sort_key addedAt (filter (\<lambda>l. subjectKey l = key) (collection s))"
    let ?res = "fold (\<lambda>(key, subj) result.
        result(key \<mapsto> \<lparr>v_name = name subj, v_links = Link_find key (collection s)\<rparr>))
        SUBJECTS Map.empty"
    have 1: "getAllSubjects USE_DB s = (Response 200 (SubjectsP ?res), s)"
      by (simp add: getAllSubjects_def True)
    have 2: "dom ?res = set (Object_keys SUBJECTS)"
      by (rule dom_fold_SUBJECTS)
    have 3: "?res key = Some \<lparr>v_name = name subj, v_links = ?ls\<rparr>"
      by (simp add: fold_update_map_of [OF distinct_SUBJECTS] subj Link_find_def)
    have 4: "fst (getSubjectLinks USE_DB key s) = Response 200 (LinksP ?ls)"
      by (simp add: True getSubjectLinks_db [OF nm] Link_find_def)
    have 5: "?ls = (if USE_DB then ?ls
             else case dataFile s of
                    None \<Rightarrow> []
                  | Some d \<Rightarrow> (case d key of None \<Rightarrow> [] | Some e \<Rightarrow> links e))"
      by (simp add: True)
    from 1 2 3 4 5 subj show ?thesis by blast
  next
    case False
    let ?ls = "case dataFile s of
                    None \<Rightarrow> []
                  | Some d \<Rightarrow> (case d key of None \<Rightarrow> [] | Some e \<Rightarrow> links e)"
    let ?res = "fold (\<lambda>(key, subj) result.
        result(key \<mapsto> \<lparr>v_name = name subj, v_links = links_or_empty (js_get d key)\<rparr>))
        SUBJECTS Map.empty"
    have ls: "links_or_empty (js_get d key) = ?ls"
    proof (cases "dataFile s")
      case None
      with d have "d = defaultJsonData" by (simp add: ensureDataFile_def)
      then have "(case d key of None \<Rightarrow> [] | Some e \<Rightarrow> links e) = []"
        by (auto dest: defaultJsonData_links split: option.splits)
      with None show ?thesis
        by (simp add: links_or_empty_def js_get_def split: option.splits)
    next
      case (Some d')
      with d have "d = d'" by simp
      with Some show ?thesis
        by (simp add: links_or_empty_def js_get_def split: option.splits)
    qed
    have 1: "getAllSubjects USE_DB s = (Response 200 (SubjectsP ?res), s\<lparr>dataFile := Some d\<rparr>)"
      by (simp add: getAllSubjects_def False readJsonData_def Let_def d)
    have 2: "dom ?res = set (Object_keys SUBJECTS)"
      by (rule dom_fold_SUBJECTS)
    have "?res key = Some \<lparr>v_name = name subj, v_links = links_or_empty (js_get d key)\<rparr>"
      by (simp add: fold_update_map_of [OF distinct_SUBJECTS] subj)
    then have 3: "?res key = Some \<lparr>v_name = name subj, v_links = ?ls\<rparr>"
      by (simp only: ls)
    have "fst (getSubjectLinks USE_DB key s) = Response 200 (LinksP (links_or_empty (js_get d key)))"
      by (simp add: False getSubjectLinks_file [OF nm d])
    then have 4: "fst (getSubjectLinks USE_DB key s) = Response 200 (LinksP ?ls)"
      by (simp only: ls)
    have 5: "?ls = (if USE_DB then sort_key addedAt (filter (\<lambda>l. subjectKey l = key) (collection s))
             else ?ls)"
      by (simp add: False)
    from 1 2 3 4 5 subj show ?thesis by blast
  qed
qed

text \<open>A data.json with one link under \<open>cn\<close>, and a collection with two documents of
  \<open>cn\<close> stored out of order and one of \<open>ai\<close>.\<close>

theorem getAllSubjects_complete_witness:
  "(\<exists>result s'.
      getAllSubjects False
        \<lparr>collection = [],
          dataFile = Some (defaultJsonData(''cn'' \<mapsto> \<lparr>e_name = ''Computer Networks'', links =
            [\<lparr>link_id = Some ''rs'', subjectKey = ''cn'', title = ''Notes'',
               url = ''https://x.test/cn1'', addedBy = ''admin'', addedAt = 1000\<rparr>]\<rparr>))\<rparr>
        = (Response 200 (SubjectsP result), s')
      \<and> dom result = set (Object_keys SUBJECTS)
      \<and> result ''cn'' = Some \<lparr>v_name = ''Computer Networks'', v_links =
            [\<lparr>link_id = Some ''rs'', subjectKey = ''cn'', title = ''Notes'',
               url = ''https://x.test/cn1'', addedBy = ''admin'', addedAt = 1000\<rparr>]\<rparr>
      \<and> result ''toc'' = Some \<lparr>v_name = ''Theory of Computation'', v_links = []\<rparr>)
   \<and> (\<exists>result s'.
      getAllSubjects True
        \<lparr>collection =
           [\<lparr>link_id = Some ''b'', subjectKey = ''cn'', title = ''B'',
              url = ''https://x.test/cn1'', addedBy = ''admin'', addedAt = 7\<rparr>,
            \<lparr>link_id = Some ''c'', subjectKey = ''ai'', title = ''C'',
              url = ''https://example.com'', addedBy = ''admin'', addedAt = 6\<rparr>,
            \<lparr>link_id = Some ''a'', subjectKey = ''cn'', title = ''A'',
              url = ''https://example.com'', addedBy = ''admin'', addedAt = 5\<rparr>],
          dataFile = None\<rparr>
        = (Response 200 (SubjectsP result), s')
      \<and> dom result = set (Object_keys SUBJECTS)
      \<and> result ''cn'' = Some \<lparr>v_name = ''Computer Networks'', v_links =
           [\<lparr>link_id = Some ''a'', subjectKey = ''cn'', title = ''A'',
              url = ''https://example.com'', addedBy = ''admin'', addedAt = 5\<rparr>,
            \<lparr>link_id = Some ''b'', subjectKey = ''cn'', title = ''B'',
              url = ''https://x.test/cn1'', addedBy = ''admin'', addedAt = 7\<rparr>]\<rparr>)"
proof -
  let ?lnk = "\<lparr>link_id = Some ''rs'', subjectKey = ''cn'', title = ''Notes'',
               url = ''https://x.test/cn1'', addedBy = ''admin'', addedAt = 1000\<rparr>"
  let ?s1 = "\<lparr>collection = [],
          dataFile = Some (defaultJsonData(''cn'' \<mapsto> \<lparr>e_name = ''Computer Networks'',
            links = [?lnk]\<rparr>))\<rparr>"
  let ?a = "\<lparr>link_id = Some ''a'', subjectKey = ''cn'', title = ''A'',
              url = ''https://example.com'', addedBy = ''admin'', addedAt = 5\<rparr>"
  let ?b = "\<lparr>link_id = Some ''b'', subjectKey = ''cn'', title = ''B'',
              url = ''https://x.test/cn1'', addedBy = ''admin'', addedAt = 7\<rparr>"
  let ?c = "\<lparr>link_id = Some ''c'', subjectKey = ''ai'', title = ''C'',
              url = ''https://example.com'', addedBy = ''admin'', addedAt = 6\<rparr>"
  let ?s2 = "\<lparr>collection = [?b, ?c, ?a], dataFile = None\<rparr>"
  have cn: "''cn'' \<in> set (Object_keys SUBJECTS)" and toc: "''toc'' \<in> set (Object_keys SUBJECTS)"
    by (simp_all add: Object_keys_def SUBJECTS_def)
  have subj: "map_of SUBJECTS ''cn'' = Some \<lparr>name = ''Computer Networks'', containerId = ''cnLinks''\<rparr>"
    "map_of SUBJECTS ''toc'' = Some \<lparr>name = ''Theory of Computation'', containerId = ''tocLinks''\<rparr>"
    by (simp_all add: SUBJECTS_def)
  have list1: "getSubjectLinks False ''cn'' ?s1 = (Response 200 (LinksP [?lnk]), ?s1)"
    by (simp add: getSubjectLinks_def not_member_SUBJECTS_at Object_keys_def SUBJECTS_def
          readJsonData_def ensureDataFile_def Let_def js_get_def links_or_empty_def)
  have list2: "getSubjectLinks True ''cn'' ?s2 = (Response 200 (LinksP [?a, ?b]), ?s2)"
    by (simp add: getSubjectLinks_def not_member_SUBJECTS_at Object_keys_def SUBJECTS_def
          Link_find_def)
  from getAllSubjects_complete [OF cn, of False ?s1] list1 obtain result s' where
    r1: "getAllSubjects False ?s1 = (Response 200 (SubjectsP result), s')"
      "dom result = set (Object_keys SUBJECTS)"
      "result ''cn'' = Some \<lparr>v_name = ''Computer Networks'', v_links = [?lnk]\<rparr>"
    by (auto simp: subj)
  from getAllSubjects_complete [OF toc, of False ?s1] r1(1)
  have "result ''toc'' = Some \<lparr>v_name = ''Theory of Computation'', v_links = []\<rparr>"
    by (auto simp: subj dest: defaultJsonData_links split: option.splits)
  with r1 have fromFile: "\<exists>result s'.
      getAllSubjects False ?s1 = (Response 200 (SubjectsP result), s')
      \<and> dom result = set (Object_keys SUBJECTS)
      \<and> result ''cn'' = Some \<lparr>v_name = ''Computer Networks'', v_links = [?lnk]\<rparr>
      \<and> result ''toc'' = Some \<lparr>v_name = ''Theory of Computation'', v_links = []\<rparr>"
    by blast
  from getAllSubjects_complete [OF cn, of True ?s2] list2
  have fromDb: "\<exists>result s'.
      getAllSubjects True ?s2 = (Response 200 (SubjectsP result), s')
      \<and> dom result = set (Object_keys SUBJECTS)
      \<and> result ''cn'' = Some \<lparr>v_name = ''Computer Networks'', v_links = [?a, ?b]\<rparr>"
    by (auto simp: subj)
  from fromFile fromDb show ?thesis by blast
qed

section \<open>Rejected requests\<close>

text \<open>
  Claim C6. For every known subject key, every non-empty title and every url string
  on which \<open>new URL\<close> throws, \<open>addLink\<close> answers 400 in both backends and returns the
  stored state unchanged, so that \<open>getSubjectLinks\<close> answers afterwards as before. (The
  empty url is already refused by the check for a missing title or url.)
\<close>

theorem invalid_url_rejected:
  assumes "key \<in> set (Object_keys SUBJECTS)"
    and "b_title b = Some t" and "t \<noteq> []"
    and "b_url b = Some u" and "\<not> urlParses rt u"
  shows "addLink rt USE_DB key (Some b) tk s =
      (Response 400 (ErrorMsg (if u = [] then ''Missing title or url'' else ''Invalid URL'')), s)
    \<and> getSubjectLinks USE_DB key (snd (addLink rt USE_DB key (Some b) tk s))
        = getSubjectLinks USE_DB key s"
proof -
  have "addLink rt USE_DB key (Some b) tk s =
      (Response 400 (ErrorMsg (if u = [] then ''Missing title or url'' else ''Invalid URL'')), s)"
    using assms by (simp add: addLink_def falsy_def or_else_def)
  then show ?thesis by simp
qed

theorem invalid_url_rejected_witness:
  "addLink exampleRuntime False ''toc''
      (Some \<lparr>b_title = Some ''T'', b_url = Some ''not-a-url'', b_addedBy = None\<rparr>)
      \<lparr>dateNow = 1000, newDate = 1000, objectId = []\<rparr> initialState
     = (Response 400 (ErrorMsg ''Invalid URL''), initialState)
   \<and> getSubjectLinks False ''toc''
        (snd (addLink exampleRuntime False ''toc''
          (Some \<lparr>b_title = Some ''T'', b_url = Some ''not-a-url'', b_addedBy = None\<rparr>)
          \<lparr>dateNow = 1000, newDate = 1000, objectId = []\<rparr> initialState))
     = getSubjectLinks False ''toc'' initialState"
  using invalid_url_rejected [of "''toc''"
      "\<lparr>b_title = Some ''T'', b_url = Some ''not-a-url'', b_addedBy = None\<rparr>" "''T''"
      "''not-a-url''" exampleRuntime False "\<lparr>dateNow = 1000, newDate = 1000, objectId = []\<rparr>"
      initialState]
  by (simp add: Object_keys_def SUBJECTS_def exampleRuntime_def)

section \<open>A missing entry in data.json\<close>

text \<open>
  Claim C10. File variant, data.json present but without an entry for the known key:
  \<open>getAllSubjects\<close> and \<open>getSubjectLinks\<close> answer 200 and report the empty link
  sequence for that subject; \<open>addLink\<close> with a title, a url that parses and any
  \<open>addedBy\<close> answers 500 "Failed to add link"; and whatever the body, \<open>addLink\<close>
  leaves the file as it was, so the entry is still missing.
\<close>

theorem missing_entry_read_tolerated_add_fails:
  assumes "key \<in> set (Object_keys SUBJECTS)"
    and "dataFile s = Some d" and "d key = None"
  shows "(\<exists>result subj. getAllSubjects False s = (Response 200 (SubjectsP result), s)
            \<and> map_of SUBJECTS key = Some subj
            \<and> result key = Some \<lparr>v_name = name subj, v_links = []\<rparr>)
    \<and> getSubjectLinks False key s = (Response 200 (LinksP []), s)
    \<and> snd (addLink rt False key req_body tk s) = s
    \<and> (b_title b = Some t \<and> t \<noteq> [] \<and> b_url b = Some u \<and> u \<noteq> [] \<and> urlParses rt u
         \<longrightarrow> addLink rt False key (Some b) tk s
               = (Response 500 (ErrorMsg ''Failed to add link''), s))"
proof -
  obtain subj where subj: "map_of SUBJECTS key = Some subj"
    using map_of_SUBJECTS_Some [OF assms(1)] by blast
  have same: "s\<lparr>dataFile := Some d\<rparr> = s"
    using assms(2) by simp
  have get: "js_get d key = Undefined"
    using assms(3) known_not_inherited [OF assms(1)] by (simp add: js_get_def)
  have nm: "\<not> not_member (SUBJECTS_at key)" using assms(1) by simp
  have 1: "\<exists>result subj. getAllSubjects False s = (Response 200 (SubjectsP result), s)
            \<and> map_of SUBJECTS key = Some subj
            \<and> result key = Some \<lparr>v_name = name subj, v_links = []\<rparr>"
    using subj
    by (simp add: getAllSubjects_def readJsonData_def Let_def assms(2) same
        fold_update_map_of [OF distinct_SUBJECTS] get links_or_empty_def)
  have 2: "getSubjectLinks False key s = (Response 200 (LinksP []), s)"
    by (simp add: getSubjectLinks_file [OF nm, of s d] assms(2) same get links_or_empty_def)
  have 3: "snd (addLink rt False key req_body tk s) = s"
    by (simp add: addLink_def Let_def readJsonData_def assms(2) same get nm)
  have 4: "b_title b = Some t \<and> t \<noteq> [] \<and> b_url b = Some u \<and> u \<noteq> [] \<and> urlParses rt u
         \<longrightarrow> addLink rt False key (Some b) tk s
               = (Response 500 (ErrorMsg ''Failed to add link''), s)"
    by (simp add: addLink_def Let_def readJsonData_def assms(2) same get nm falsy_def or_else_def)
  from 1 2 3 4 show ?thesis by blast
qed

theorem missing_entry_read_tolerated_add_fails_witness:
  "(\<exists>result subj.
       getAllSubjects False \<lparr>collection = [], dataFile = Some Map.empty\<rparr>
         = (Response 200 (SubjectsP result), \<lparr>collection = [], dataFile = Some Map.empty\<rparr>)
       \<and> map_of SUBJECTS ''toc'' = Some subj
       \<and> result ''toc'' = Some \<lparr>v_name = name subj, v_links = []\<rparr>)
   \<and> getSubjectLinks False ''toc'' \<lparr>collection = [], dataFile = Some Map.empty\<rparr>
       = (Response 200 (LinksP []), \<lparr>collection = [], dataFile = Some Map.empty\<rparr>)
   \<and> snd (addLink exampleRuntime False ''toc''
          (Some \<lparr>b_title = Some ''T'', b_url = Some ''https://example.com'', b_addedBy = None\<rparr>)
          \<lparr>dateNow = 1000, newDate = 1000, objectId = []\<rparr>
          \<lparr>collection = [], dataFile = Some Map.empty\<rparr>)
       = \<lparr>collection = [], dataFile = Some Map.empty\<rparr>
   \<and> addLink exampleRuntime False ''toc''
          (Some \<lparr>b_title = Some ''T'', b_url = Some ''https://example.com'', b_addedBy = None\<rparr>)
          \<lparr>dateNow = 1000, newDate = 1000, objectId = []\<rparr>
          \<lparr>collection = [], dataFile = Some Map.empty\<rparr>
       = (Response 500 (ErrorMsg ''Failed to add link''),
          \<lparr>collection = [], dataFile = Some Map.empty\<rparr>)"
  using missing_entry_read_tolerated_add_fails
    [where key = "''toc''" and s = "\<lparr>collection = [], dataFile = Some Map.empty\<rparr>"
       and d = Map.empty and rt = exampleRuntime
       and req_body = "Some \<lparr>b_title = Some ''T'', b_url = Some ''https://example.com'',
                              b_addedBy = None\<rparr>"
       and tk = "\<lparr>dateNow = 1000, newDate = 1000, objectId = []\<rparr>"
       and b = "\<lparr>b_title = Some ''T'', b_url = Some ''https://example.com'', b_addedBy = None\<rparr>"
       and t = "''T''" and u = "''https://example.com''"]
  by (simp add: Object_keys_def SUBJECTS_def exampleRuntime_def)

section \<open>What the handlers do to the store\<close>

lemma ensureDataFile_stored [simp]: "ensureDataFile f = Some (stored f)"
  by (simp add: ensureDataFile_def stored_def split: option.splits)

lemma stored_Some [simp]: "stored (Some d) = d"
  by (simp add: stored_def)

lemma getSubjectLinks_file_response:
  "\<not> not_member (SUBJECTS_at key) \<Longrightarrow>
   fst (getSubjectLinks False key s)
     = Response 200 (LinksP (links_or_empty (js_get (stored (dataFile s)) key)))"
  by (simp add: getSubjectLinks_def readJsonData_def Let_def)

lemma getSubjectLinks_db_response:
  "\<not> not_member (SUBJECTS_at key) \<Longrightarrow>
   fst (getSubjectLinks True key s) = Response 200 (LinksP (Link_find key (collection s)))"
  by (simp add: getSubjectLinks_def)

lemma getSubjectLinks_unknown_response:
  "not_member (SUBJECTS_at key) \<Longrightarrow>
   fst (getSubjectLinks USE_DB key s) = Response 404 (ErrorMsg ''Subject not found'')"
  by (simp add: getSubjectLinks_def)

text \<open>A POST in the file variant either appends one link to the entry of its key and
  answers 201, or answers with an error and leaves the document as it was.\<close>

lemma addLink_file_effect:
  assumes "addLink rt False key req_body tk s = (r, s')"
  shows "(\<exists>b e l. req_body = Some b \<and> r = Response 201 (LinkP l)
            \<and> l = \<lparr>link_id = Some (toString36 (dateNow tk)), subjectKey = key,
                    title = or_else (b_title b) [], url = or_else (b_url b) [],
                    addedBy = or_else (b_addedBy b) ''admin'', addedAt = newDate tk\<rparr>
            \<and> \<not> falsy (b_title b) \<and> \<not> falsy (b_url b) \<and> urlParses rt (or_else (b_url b) [])
            \<and> stored (dataFile s) key = Some e
            \<and> dataFile s' = Some ((stored (dataFile s))(key \<mapsto> e\<lparr>links := links e @ [l]\<rparr>))
            \<and> collection s' = collection s)
       \<or> ((\<forall>p. r \<noteq> Response 201 p) \<and> stored (dataFile s') = stored (dataFile s)
            \<and> collection s' = collection s)"
  using assms
  by (cases req_body)
     (auto simp: addLink_def Let_def readJsonData_def writeJsonData_def emptyBody_def falsy_def
        js_get_def split: if_splits option.splits member.splits)

lemma addLink_db_effect:
  assumes "addLink rt True key req_body tk s = (r, s')"
  shows "(\<exists>b l. req_body = Some b \<and> r = Response 201 (LinkP l)
            \<and> l = \<lparr>link_id = Some (objectId tk), subjectKey = key,
                    title = or_else (b_title b) [], url = or_else (b_url b) [],
                    addedBy = or_else (b_addedBy b) ''admin'', addedAt = newDate tk\<rparr>
            \<and> \<not> falsy (b_title b) \<and> \<not> falsy (b_url b) \<and> urlParses rt (or_else (b_url b) [])
            \<and> key \<in> set (Object_keys SUBJECTS)
            \<and> collection s' = collection s @ [l] \<and> dataFile s' = dataFile s)
       \<or> ((\<forall>p. r \<noteq> Response 201 p) \<and> s' = s)"
  using assms
  by (cases req_body)
     (auto simp: addLink_def Let_def Link_create_def emptyBody_def falsy_def
        split: if_splits option.splits)


section \<open>Cross-subject isolation\<close>

text \<open>
  Claim C8. In both backends and in every state, for two distinct keys \<open>k1\<close> and
  \<open>k2\<close>: after \<open>addLink\<close> under \<open>k1\<close>, whatever its body and its outcome (in
  particular after a successful one), \<open>getSubjectLinks\<close> for \<open>k2\<close> answers exactly as
  it did before.
\<close>

theorem addLink_other_subject_unchanged:
  assumes "k1 \<noteq> k2"
  shows "fst (getSubjectLinks USE_DB k2 (snd (addLink rt USE_DB k1 req_body tk s)))
       = fst (getSubjectLinks USE_DB k2 s)"
proof (cases "not_member (SUBJECTS_at k2)")
  case True
  then show ?thesis by (simp add: getSubjectLinks_unknown_response)
next
  case nm: False
  obtain r s' where add: "addLink rt USE_DB k1 req_body tk s = (r, s')"
    by (cases "addLink rt USE_DB k1 req_body tk s")
  show ?thesis
  proof (cases USE_DB)
    case True
    from add True have add': "addLink rt True k1 req_body tk s = (r, s')" by simp
    have "Link_find k2 (collection s') = Link_find k2 (collection s)"
      using addLink_db_effect [OF add'] assms
      by (auto simp: Link_find_def)
    then show ?thesis
      by (simp add: True add' getSubjectLinks_db_response [OF nm])
  next
    case False
    from add False have add': "addLink rt False k1 req_body tk s = (r, s')" by simp
    have "js_get (stored (dataFile s')) k2 = js_get (stored (dataFile s)) k2"
      using addLink_file_effect [OF add'] assms
      by (auto simp: js_get_def)
    then show ?thesis
      by (simp add: False add' getSubjectLinks_file_response [OF nm])
  qed
qed

theorem addLink_other_subject_unchanged_witness:
  "fst (addLink exampleRuntime False ''ai''
          (Some \<lparr>b_title = Some ''T'', b_url = Some ''https://example.com'', b_addedBy = None\<rparr>)
          \<lparr>dateNow = 1000, newDate = 1000, objectId = []\<rparr> initialState)
     = Response 201 (LinkP \<lparr>link_id = Some ''rs'', subjectKey = ''ai'', title = ''T'',
         url = ''https://example.com'', addedBy = ''admin'', addedAt = 1000\<rparr>)
   \<and> fst (getSubjectLinks False ''toc''
        (snd (addLink exampleRuntime False ''ai''
          (Some \<lparr>b_title = Some ''T'', b_url = Some ''https://example.com'', b_addedBy = None\<rparr>)
          \<lparr>dateNow = 1000, newDate = 1000, objectId = []\<rparr> initialState)))
     = fst (getSubjectLinks False ''toc'' initialState)"
proof -
  have "toString36 1000 = ''rs''"
    by (simp add: toString36.simps digit36_def digits36_def)
  then have "fst (addLink exampleRuntime False ''ai''
          (Some \<lparr>b_title = Some ''T'', b_url = Some ''https://example.com'', b_addedBy = None\<rparr>)
          \<lparr>dateNow = 1000, newDate = 1000, objectId = []\<rparr> initialState)
     = Response 201 (LinkP \<lparr>link_id = Some ''rs'', subjectKey = ''ai'', title = ''T'',
         url = ''https://example.com'', addedBy = ''admin'', addedAt = 1000\<rparr>)"
    by (simp add: addLink_def falsy_def or_else_def not_member_SUBJECTS_at Object_keys_def
          SUBJECTS_def exampleRuntime_def readJsonData_def Let_def initialState_def
          stored_def defaultJsonData_def js_get_def writeJsonData_def)
  then show ?thesis
    using addLink_other_subject_unchanged [of "''ai''" "''toc''" False exampleRuntime
      "Some \<lparr>b_title = Some ''T'', b_url = Some ''https://example.com'', b_addedBy = None\<rparr>"
      "\<lparr>dateNow = 1000, newDate = 1000, objectId = []\<rparr>" initialState]
    by simp
qed

section \<open>The default of addedBy\<close>



section \<open>Adding a link and listing it\<close>





section \<open>Deleting from the file\<close>

lemma findIndex_Some:
  "findIndex P xs = Some i \<Longrightarrow> i < length xs \<and> P (xs ! i) \<and> (\<forall>j<i. \<not> P (xs ! j))"
proof (induction xs arbitrary: i)
  case Nil
  then show ?case by simp
next
  case (Cons x xs)
  show ?case
  proof (cases "P x")
    case True
    with Cons.prems show ?thesis by simp
  next
    case False
    with Cons.prems obtain i' where i': "findIndex P xs = Some i'" "i = Suc i'"
      by auto
    from Cons.IH [OF i'(1)] False i'(2) show ?thesis
      by (auto simp: nth_Cons split: nat.splits)
  qed
qed

lemma findIndex_None: "findIndex P xs = None \<longleftrightarrow> (\<forall>x\<in>set xs. \<not> P x)"
  by (induction xs) auto

lemma set_splice1: "set (splice1 idx xs) \<subseteq> set xs"
  unfolding splice1_def using set_take_subset [of idx xs] set_drop_subset [of "Suc idx" xs]
  by auto

lemma splice1_split:
  "idx < length xs \<Longrightarrow> \<exists>P Q. xs = P @ xs ! idx # Q \<and> splice1 idx xs = P @ Q"
  using id_take_nth_drop [of idx xs] by (auto simp: splice1_def)

text \<open>A DELETE in the file variant either removes the first link of the entry whose
  \<open>_id\<close> is the one requested and answers 200 with it, or answers with an error and
  leaves the document as it was.\<close>

lemma deleteLink_file_effect:
  assumes "deleteLink rt False key ident s = (r, s')"
  shows "(\<exists>e idx. stored (dataFile s) key = Some e
            \<and> findIndex (\<lambda>l. or_else (link_id l) [] = ident) (links e) = Some idx
            \<and> r = Response 200 (LinkP (links e ! idx))
            \<and> dataFile s' = Some ((stored (dataFile s))(key \<mapsto> e\<lparr>links := splice1 idx (links e)\<rparr>))
            \<and> collection s' = collection s)
       \<or> ((\<forall>p. r \<noteq> Response 200 p) \<and> stored (dataFile s') = stored (dataFile s)
            \<and> collection s' = collection s)"
  using assms
  by (auto simp: deleteLink_def Let_def readJsonData_def writeJsonData_def js_get_def
        links_or_empty_def split: if_splits option.splits member.splits)

lemma getAllSubjects_effect:
  "getAllSubjects USE_DB s = (r, s') \<Longrightarrow>
     stored (dataFile s') = stored (dataFile s) \<and> collection s' = collection s"
  by (auto simp: getAllSubjects_def readJsonData_def Let_def split: if_splits)

lemma getSubjectLinks_effect:
  "getSubjectLinks USE_DB key s = (r, s') \<Longrightarrow>
     stored (dataFile s') = stored (dataFile s) \<and> collection s' = collection s"
  by (auto simp: getSubjectLinks_def readJsonData_def Let_def split: if_splits)

section \<open>Identifiers of the file variant\<close>

lemma toString36_not_Nil: "toString36 n \<noteq> []"
  by (subst toString36.simps) simp

lemma digit36_inj: "a < 36 \<Longrightarrow> b < 36 \<Longrightarrow> digit36 a = digit36 b \<Longrightarrow> a = b"
proof -
  have d: "distinct digits36" and l: "length digits36 = 36"
    by (simp_all add: digits36_def)
  assume "a < 36" "b < 36" "digit36 a = digit36 b"
  then show "a = b"
    using nth_eq_iff_index_eq [OF d, of a b] by (simp add: l digit36_def)
qed

text \<open>Two different clock readings give two different identifiers.\<close>

lemma toString36_inj: "toString36 n = toString36 m \<Longrightarrow> n = m"
proof (induction n arbitrary: m rule: toString36.induct)
  case (1 n)
  show ?case
  proof (cases "n < 36")
    case small: True
    then have n: "toString36 n = [digit36 n]" by (subst toString36.simps) simp
    show ?thesis
    proof (cases "m < 36")
      case True
      then have "toString36 m = [digit36 m]" by (subst toString36.simps) simp
      with n "1.prems" have "digit36 n = digit36 m" by simp
      with small True show ?thesis by (rule digit36_inj)
    next
      case False
      then have "toString36 m = toString36 (m div 36) @ [digit36 (m mod 36)]"
        by (subst toString36.simps) simp
      with n "1.prems" have "toString36 (m div 36) = []" by simp
      then show ?thesis by (simp add: toString36_not_Nil)
    qed
  next
    case big: False
    then have n: "toString36 n = toString36 (n div 36) @ [digit36 (n mod 36)]"
      by (subst toString36.simps) simp
    show ?thesis
    proof (cases "m < 36")
      case True
      then have "toString36 m = [digit36 m]" by (subst toString36.simps) simp
      with n "1.prems" have "toString36 (n div 36) = []" by simp
      then show ?thesis by (simp add: toString36_not_Nil)
    next
      case False
      then have "toString36 m = toString36 (m div 36) @ [digit36 (m mod 36)]"
        by (subst toString36.simps) simp
      with n "1.prems" have eq: "toString36 (n div 36) = toString36 (m div 36)"
        and dg: "digit36 (n mod 36) = digit36 (m mod 36)"
        by simp_all
      from "1.IH" [OF big eq] have q: "n div 36 = m div 36" .
      have "n mod 36 = m mod 36"
        using dg by (intro digit36_inj) simp_all
      with q show ?thesis by (metis div_mult_mod_eq)
    qed
  qed
qed

text \<open>Replacing the links of one registry entry replaces one segment of \<open>fileLinks\<close>.\<close>

lemma concat_map_change_one:
  assumes "distinct ks" and "key \<in> set ks" and "\<And>k. k \<noteq> key \<Longrightarrow> g' k = g k"
  shows "\<exists>A B. concat (map g ks) = A @ g key @ B \<and> concat (map g' ks) = A @ g' key @ B"
proof -
  from assms(2) obtain as bs where ks: "ks = as @ key # bs"
    by (auto dest: split_list)
  with assms(1) have nas: "key \<notin> set as" and nbs: "key \<notin> set bs" by auto
  have a: "map g' as = map g as"
    by (rule map_cong [OF refl]) (metis nas assms(3))
  have b: "map g' bs = map g bs"
    by (rule map_cong [OF refl]) (metis nbs assms(3))
  have "concat (map g' ks) = concat (map g' as) @ g' key @ concat (map g' bs)"
    by (simp add: ks)
  then have "concat (map g' ks) = concat (map g as) @ g' key @ concat (map g bs)"
    by (simp only: a b)
  moreover have "concat (map g ks) = concat (map g as) @ g key @ concat (map g bs)"
    by (simp add: ks)
  ultimately have "concat (map g ks) = concat (map g as) @ g key @ concat (map g bs)
      \<and> concat (map g' ks) = concat (map g as) @ g' key @ concat (map g bs)"
    by simp
  then show ?thesis by blast
qed

lemma fileLinks_update:
  assumes "key \<in> set (Object_keys SUBJECTS)" and "stored f key = Some e"
  shows "\<exists>A B. fileLinks f = A @ links e @ B
      \<and> fileLinks (Some ((stored f)(key \<mapsto> e\<lparr>links := ls\<rparr>))) = A @ ls @ B"
proof -
  let ?g = "\<lambda>k. links_or_empty (js_get (stored f) k)"
  let ?g' = "\<lambda>k. links_or_empty (js_get ((stored f)(key \<mapsto> e\<lparr>links := ls\<rparr>)) k)"
  have d: "distinct (Object_keys SUBJECTS)"
    by (simp add: Object_keys_def SUBJECTS_def)
  have "\<And>k. k \<noteq> key \<Longrightarrow> ?g' k = ?g k"
    by (simp add: js_get_def)
  from concat_map_change_one [OF d assms(1), of ?g' ?g, OF this]
  obtain A B where "fileLinks f = A @ ?g key @ B"
    "fileLinks (Some ((stored f)(key \<mapsto> e\<lparr>links := ls\<rparr>))) = A @ ?g' key @ B"
    by (auto simp: fileLinks_def)
  moreover have "?g key = links e" "?g' key = ls"
    using assms(2) by (simp_all add: js_get_def links_or_empty_def)
  ultimately show ?thesis by auto
qed

lemma fileLinks_stored_cong:
  "stored f' = stored f \<Longrightarrow> fileLinks f' = fileLinks f"
  by (simp add: fileLinks_def)

text \<open>
  One request of the file variant keeps: the document has exactly the keys of the
  registry; the identifiers in it are pairwise different; and each of them is the
  base-36 form of a clock reading already used (the set \<open>T\<close>), provided the request,
  if it is a POST, reads a clock value not used before.
\<close>

lemma handle_file_ids:
  assumes step: "handle rt False req s = (r, s')"
    and dom: "dom (stored (dataFile s)) = set (Object_keys SUBJECTS)"
    and dist: "distinct (map link_id (fileLinks (dataFile s)))"
    and sub: "set (map link_id (fileLinks (dataFile s))) \<subseteq> (\<lambda>t. Some (toString36 t)) ` T"
    and new: "set (postIdTimes [req]) \<inter> T = {}"
  shows "dom (stored (dataFile s')) = set (Object_keys SUBJECTS)
    \<and> distinct (map link_id (fileLinks (dataFile s')))
    \<and> set (map link_id (fileLinks (dataFile s')))
         \<subseteq> (\<lambda>t. Some (toString36 t)) ` (T \<union> set (postIdTimes [req]))"
proof (cases req)
  case GetAll
  with step have same: "stored (dataFile s') = stored (dataFile s)"
    by (auto dest: getAllSubjects_effect)
  from fileLinks_stored_cong [OF same] same dom dist sub show ?thesis
    by auto
next
  case (GetLinks key)
  with step have same: "stored (dataFile s') = stored (dataFile s)"
    by (auto dest: getSubjectLinks_effect)
  from fileLinks_stored_cong [OF same] same dom dist sub show ?thesis
    by auto
next
  case (Post key req_body tk)
  with step have add: "addLink rt False key req_body tk s = (r, s')" by simp
  from new Post have fresh: "dateNow tk \<notin> T" by simp
  from addLink_file_effect [OF add] show ?thesis
  proof (elim disjE exE conjE)
    fix b e l
    assume l: "l = \<lparr>link_id = Some (toString36 (dateNow tk)), subjectKey = key,
                     title = or_else (b_title b) [], url = or_else (b_url b) [],
                     addedBy = or_else (b_addedBy b) ''admin'', addedAt = newDate tk\<rparr>"
      and e: "stored (dataFile s) key = Some e"
      and f': "dataFile s' = Some ((stored (dataFile s))(key \<mapsto> e\<lparr>links := links e @ [l]\<rparr>))"
    from e dom have key: "key \<in> set (Object_keys SUBJECTS)" by blast
    from fileLinks_update [OF key e, of "links e @ [l]"] f'
    obtain A B where AB: "fileLinks (dataFile s) = A @ links e @ B"
      "fileLinks (dataFile s') = A @ (links e @ [l]) @ B"
      by auto
    have "Some (toString36 (dateNow tk)) \<notin> (\<lambda>t. Some (toString36 t)) ` T"
      using fresh by (auto dest: toString36_inj)
    with sub have notin: "link_id l \<notin> set (map link_id (fileLinks (dataFile s)))"
      by (auto simp: l)
    have 1: "dom (stored (dataFile s')) = set (Object_keys SUBJECTS)"
      using dom key by (auto simp: f')
    have 2: "distinct (map link_id (fileLinks (dataFile s')))"
      using dist notin by (auto simp: AB)
    have 3: "set (map link_id (fileLinks (dataFile s')))
         \<subseteq> (\<lambda>t. Some (toString36 t)) ` (T \<union> set (postIdTimes [req]))"
      using sub by (auto simp: AB Post l)
    from 1 2 3 show ?thesis by blast
  next
    assume same: "stored (dataFile s') = stored (dataFile s)"
    from fileLinks_stored_cong [OF same] same dom dist sub show ?thesis
      by auto
  qed
next
  case (Delete key ident)
  with step have del: "deleteLink rt False key ident s = (r, s')" by simp
  from deleteLink_file_effect [OF del] show ?thesis
  proof (elim disjE exE conjE)
    fix e idx
    assume e: "stored (dataFile s) key = Some e"
      and idx: "findIndex (\<lambda>l. or_else (link_id l) [] = ident) (links e) = Some idx"
      and f': "dataFile s' = Some ((stored (dataFile s))(key \<mapsto> e\<lparr>links := splice1 idx (links e)\<rparr>))"
    from e dom have key: "key \<in> set (Object_keys SUBJECTS)" by blast
    from fileLinks_update [OF key e, of "splice1 idx (links e)"] f'
    obtain A B where AB: "fileLinks (dataFile s) = A @ links e @ B"
      "fileLinks (dataFile s') = A @ splice1 idx (links e) @ B"
      by auto
    from findIndex_Some [OF idx] have lt: "idx < length (links e)" by simp
    from splice1_split [OF lt] obtain P Q where
      PQ: "links e = P @ links e ! idx # Q" "splice1 idx (links e) = P @ Q"
      by blast
    have 1: "dom (stored (dataFile s')) = set (Object_keys SUBJECTS)"
      using dom key by (auto simp: f')
    have "fileLinks (dataFile s) = A @ (P @ links e ! idx # Q) @ B"
      using AB(1) PQ(1) by metis
    with dist have "distinct (map link_id (A @ (P @ links e ! idx # Q) @ B))"
      by simp
    then have 2: "distinct (map link_id (fileLinks (dataFile s')))"
      by (auto simp: AB(2) PQ(2))
    have "set (fileLinks (dataFile s')) \<subseteq> set (fileLinks (dataFile s))"
      using set_splice1 [of idx "links e"] by (auto simp: AB)
    with sub have 3: "set (map link_id (fileLinks (dataFile s')))
         \<subseteq> (\<lambda>t. Some (toString36 t)) ` (T \<union> set (postIdTimes [req]))"
      by auto
    from 1 2 3 show ?thesis by blast
  next
    assume same: "stored (dataFile s') = stored (dataFile s)"
    from fileLinks_stored_cong [OF same] same dom dist sub show ?thesis
      by auto
  qed
qed

lemma postIdTimes_Cons: "postIdTimes (req # reqs) = postIdTimes [req] @ postIdTimes reqs"
  by (cases req) simp_all

lemma run_file_ids:
  assumes "dom (stored (dataFile s)) = set (Object_keys SUBJECTS)"
    and "distinct (map link_id (fileLinks (dataFile s)))"
    and "set (map link_id (fileLinks (dataFile s))) \<subseteq> (\<lambda>t. Some (toString36 t)) ` T"
    and "distinct (postIdTimes reqs)" and "set (postIdTimes reqs) \<inter> T = {}"
  shows "dom (stored (dataFile (run rt False reqs s))) = set (Object_keys SUBJECTS)
    \<and> distinct (map link_id (fileLinks (dataFile (run rt False reqs s))))"
  using assms
proof (induction reqs arbitrary: s T)
  case Nil
  then show ?case by simp
next
  case (Cons req reqs)
  obtain r s' where step: "handle rt False req s = (r, s')"
    by (cases "handle rt False req s")
  from Cons.prems(4,5) have new: "set (postIdTimes [req]) \<inter> T = {}"
    and d': "distinct (postIdTimes reqs)"
    and new': "set (postIdTimes reqs) \<inter> (T \<union> set (postIdTimes [req])) = {}"
    by (auto simp: postIdTimes_Cons [of req reqs])
  from handle_file_ids [OF step Cons.prems(1,2,3) new]
  have "dom (stored (dataFile s')) = set (Object_keys SUBJECTS)"
    "distinct (map link_id (fileLinks (dataFile s')))"
    "set (map link_id (fileLinks (dataFile s')))
         \<subseteq> (\<lambda>t. Some (toString36 t)) ` (T \<union> set (postIdTimes [req]))"
    by blast+
  from Cons.IH [OF this d' new'] step show ?case by simp
qed

lemma fileLinks_initial: "fileLinks (dataFile initialState) = []"
  by (simp add: fileLinks_def initialState_def stored_def defaultJsonData_def SUBJECTS_def
        Object_keys_def js_get_def links_or_empty_def)

text \<open>
  Claim C3, as amended. File variant, starting with no data.json: after any sequence
  of requests (adds, and also deletes and reads) in which the POSTs read pairwise
  different values of \<open>Date.now()\<close>, the document has exactly the subjects of the
  registry and the \<open>_id\<close> values of all its links, across all subjects, are pairwise
  different.
\<close>

theorem file_ids_unique:
  assumes "distinct (postIdTimes reqs)"
  shows "dom (stored (dataFile (run rt False reqs initialState))) = set (Object_keys SUBJECTS)
    \<and> distinct (map link_id (fileLinks (dataFile (run rt False reqs initialState))))"
proof (rule run_file_ids [where T = "{}"])
  show "dom (stored (dataFile initialState)) = set (Object_keys SUBJECTS)"
    by (simp add: initialState_def stored_def dom_defaultJsonData)
  show "distinct (map link_id (fileLinks (dataFile initialState)))"
    by (simp add: fileLinks_initial)
  show "set (map link_id (fileLinks (dataFile initialState))) \<subseteq> (\<lambda>t. Some (toString36 t)) ` {}"
    by (simp add: fileLinks_initial)
  show "distinct (postIdTimes reqs)" by (rule assms)
  show "set (postIdTimes reqs) \<inter> {} = {}" by simp
qed

lemma two_posts_example:
  "fileLinks (dataFile (run exampleRuntime False
      [Post ''toc'' (Some \<lparr>b_title = Some ''T'', b_url = Some ''https://example.com'',
                             b_addedBy = None\<rparr>) \<lparr>dateNow = t1, newDate = t1, objectId = []\<rparr>,
       Post ''ai'' (Some \<lparr>b_title = Some ''U'', b_url = Some ''https://x.test/cn1'',
                            b_addedBy = None\<rparr>) \<lparr>dateNow = t2, newDate = t2, objectId = []\<rparr>]
      initialState))
   = [\<lparr>link_id = Some (toString36 t1), subjectKey = ''toc'', title = ''T'',
        url = ''https://example.com'', addedBy = ''admin'', addedAt = t1\<rparr>,
      \<lparr>link_id = Some (toString36 t2), subjectKey = ''ai'', title = ''U'',
        url = ''https://x.test/cn1'', addedBy = ''admin'', addedAt = t2\<rparr>]"
  by (simp add: addLink_def falsy_def or_else_def not_member_SUBJECTS_at Object_keys_def
        SUBJECTS_def exampleRuntime_def readJsonData_def Let_def initialState_def
        stored_def defaultJsonData_def js_get_def writeJsonData_def fileLinks_def
        links_or_empty_def)

theorem file_ids_unique_witness:
  "dom (stored (dataFile (run exampleRuntime False
      [Post ''toc'' (Some \<lparr>b_title = Some ''T'', b_url = Some ''https://example.com'',
                             b_addedBy = None\<rparr>) \<lparr>dateNow = 1000, newDate = 1000, objectId = []\<rparr>,
       Post ''ai'' (Some \<lparr>b_title = Some ''U'', b_url = Some ''https://x.test/cn1'',
                            b_addedBy = None\<rparr>) \<lparr>dateNow = 1001, newDate = 1001, objectId = []\<rparr>]
      initialState))) = set (Object_keys SUBJECTS)
   \<and> distinct (map link_id (fileLinks (dataFile (run exampleRuntime False
      [Post ''toc'' (Some \<lparr>b_title = Some ''T'', b_url = Some ''https://example.com'',
                             b_addedBy = None\<rparr>) \<lparr>dateNow = 1000, newDate = 1000, objectId = []\<rparr>,
       Post ''ai'' (Some \<lparr>b_title = Some ''U'', b_url = Some ''https://x.test/cn1'',
                            b_addedBy = None\<rparr>) \<lparr>dateNow = 1001, newDate = 1001, objectId = []\<rparr>]
      initialState))))
   \<and> length (fileLinks (dataFile (run exampleRuntime False
      [Post ''toc'' (Some \<lparr>b_title = Some ''T'', b_url = Some ''https://example.com'',
                             b_addedBy = None\<rparr>) \<lparr>dateNow = 1000, newDate = 1000, objectId = []\<rparr>,
       Post ''ai'' (Some \<lparr>b_title = Some ''U'', b_url = Some ''https://x.test/cn1'',
                            b_addedBy = None\<rparr>) \<lparr>dateNow = 1001, newDate = 1001, objectId = []\<rparr>]
      initialState))) = 2"
proof -
  let ?reqs = "[Post ''toc'' (Some \<lparr>b_title = Some ''T'', b_url = Some ''https://example.com'',
                             b_addedBy = None\<rparr>) \<lparr>dateNow = 1000, newDate = 1000, objectId = []\<rparr>,
       Post ''ai'' (Some \<lparr>b_title = Some ''U'', b_url = Some ''https://x.test/cn1'',
                            b_addedBy = None\<rparr>) \<lparr>dateNow = 1001, newDate = 1001, objectId = []\<rparr>]"
  have d: "distinct (postIdTimes ?reqs)" by simp
  have "length (fileLinks (dataFile (run exampleRuntime False ?reqs initialState))) = 2"
    unfolding two_posts_example by simp
  with file_ids_unique [OF d, of exampleRuntime] show ?thesis by blast
qed

text \<open>C3 as stated fails: two adds that read the same value of \<open>Date.now()\<close> (here
  one under \<open>toc\<close> and one under \<open>ai\<close>, both at 1000) store two links with the same
  \<open>_id\<close>.\<close>

theorem same_tick_same_id_counterexample:
  "\<not> distinct (map link_id (fileLinks (dataFile (run exampleRuntime False
      [Post ''toc'' (Some \<lparr>b_title = Some ''T'', b_url = Some ''https://example.com'',
                             b_addedBy = None\<rparr>) \<lparr>dateNow = 1000, newDate = 1000, objectId = []\<rparr>,
       Post ''ai'' (Some \<lparr>b_title = Some ''U'', b_url = Some ''https://x.test/cn1'',
                            b_addedBy = None\<rparr>) \<lparr>dateNow = 1000, newDate = 1000, objectId = []\<rparr>]
      initialState))))"
  unfolding two_posts_example by simp

section \<open>Order of a listing\<close>

lemma addedAt_bound_mono:
  "\<forall>l\<in>set xs. addedAt l \<le> (T::nat) \<Longrightarrow> T \<le> T' \<Longrightarrow> \<forall>l\<in>set xs. addedAt l \<le> T'"
  by (meson order_trans)

text \<open>
  One request of the file variant keeps every entry of the document sorted by
  \<open>addedAt\<close> and not later than the last clock reading, provided the request, if it is
  a POST, reads a clock value \<open>T'\<close> that is not earlier than the last one \<open>T\<close>.
\<close>

lemma handle_file_sorted:
  assumes step: "handle rt False req s = (r, s')"
    and inv: "\<forall>k e. stored (dataFile s) k = Some e \<longrightarrow>
               sorted (map addedAt (links e)) \<and> (\<forall>l\<in>set (links e). addedAt l \<le> T)"
    and le: "T \<le> T'"
    and now: "\<forall>t\<in>set (postTimes [req]). t = T'"
  shows "\<forall>k e. stored (dataFile s') k = Some e \<longrightarrow>
               sorted (map addedAt (links e)) \<and> (\<forall>l\<in>set (links e). addedAt l \<le> T')"
proof (intro allI impI)
  fix k e
  assume k: "stored (dataFile s') k = Some e"
  let ?thesis = "sorted (map addedAt (links e)) \<and> (\<forall>l\<in>set (links e). addedAt l \<le> T')"
  have keep: "stored (dataFile s') = stored (dataFile s) \<Longrightarrow> ?thesis"
  proof -
    assume "stored (dataFile s') = stored (dataFile s)"
    with k have "stored (dataFile s) k = Some e" by simp
    from inv [rule_format, OF this] addedAt_bound_mono [OF _ le, of "links e"]
    show ?thesis by blast
  qed
  show ?thesis
  proof (cases req)
    case GetAll
    with step have "stored (dataFile s') = stored (dataFile s)"
      by (auto dest: getAllSubjects_effect)
    then show ?thesis by (rule keep)
  next
    case (GetLinks key)
    with step have "stored (dataFile s') = stored (dataFile s)"
      by (auto dest: getSubjectLinks_effect)
    then show ?thesis by (rule keep)
  next
    case (Post key req_body tk)
    with step have add: "addLink rt False key req_body tk s = (r, s')" by simp
    from now Post have T': "newDate tk = T'" by simp
    from addLink_file_effect [OF add] show ?thesis
    proof (elim disjE exE conjE)
      fix b e0 l
      assume l: "l = \<lparr>link_id = Some (toString36 (dateNow tk)), subjectKey = key,
                     title = or_else (b_title b) [], url = or_else (b_url b) [],
                     addedBy = or_else (b_addedBy b) ''admin'', addedAt = newDate tk\<rparr>"
        and e0: "stored (dataFile s) key = Some e0"
        and f': "dataFile s' = Some ((stored (dataFile s))(key \<mapsto> e0\<lparr>links := links e0 @ [l]\<rparr>))"
      show ?thesis
      proof (cases "k = key")
        case True
        with k f' have e: "links e = links e0 @ [l]" by auto
        from inv [rule_format, OF e0] have "sorted (map addedAt (links e0))"
          "\<forall>x\<in>set (links e0). addedAt x \<le> T" by simp_all
        moreover have "addedAt l = T'" using l T' by simp
        moreover have "\<forall>x\<in>set (links e0). addedAt x \<le> T'"
          using calculation(2) le by (rule addedAt_bound_mono)
        ultimately show ?thesis by (simp add: e sorted_append)
      next
        case False
        with k f' have "stored (dataFile s) k = Some e" by simp
        from inv [rule_format, OF this] addedAt_bound_mono [OF _ le, of "links e"]
        show ?thesis by blast
      qed
    next
      assume "stored (dataFile s') = stored (dataFile s)"
      then show ?thesis by (rule keep)
    qed
  next
    case (Delete key ident)
    with step have del: "deleteLink rt False key ident s = (r, s')" by simp
    from deleteLink_file_effect [OF del] show ?thesis
    proof (elim disjE exE conjE)
      fix e0 idx
      assume e0: "stored (dataFile s) key = Some e0"
        and idx: "findIndex (\<lambda>l. or_else (link_id l) [] = ident) (links e0) = Some idx"
        and f': "dataFile s' = Some ((stored (dataFile s))(key \<mapsto> e0\<lparr>links := splice1 idx (links e0)\<rparr>))"
      show ?thesis
      proof (cases "k = key")
        case True
        with k f' have e: "links e = splice1 idx (links e0)" by auto
        from findIndex_Some [OF idx] have "idx < length (links e0)" by simp
        from splice1_split [OF this] obtain P Q where
          PQ: "links e0 = P @ links e0 ! idx # Q" "splice1 idx (links e0) = P @ Q"
          by blast
        from inv [rule_format, OF e0] have "sorted (map addedAt (links e0))"
          "\<forall>x\<in>set (links e0). addedAt x \<le> T" by simp_all
        then have "sorted (map addedAt (P @ links e0 ! idx # Q))"
          "\<forall>x\<in>set (P @ links e0 ! idx # Q). addedAt x \<le> T"
          using PQ(1) by metis+
        then have "sorted (map addedAt (P @ Q))" "\<forall>x\<in>set (P @ Q). addedAt x \<le> T"
          by (auto simp: sorted_append)
        with addedAt_bound_mono [OF _ le, of "P @ Q"] show ?thesis
          by (simp only: e PQ(2)) blast
      next
        case False
        with k f' have "stored (dataFile s) k = Some e" by simp
        from inv [rule_format, OF this] addedAt_bound_mono [OF _ le, of "links e"]
        show ?thesis by blast
      qed
    next
      assume "stored (dataFile s') = stored (dataFile s)"
      then show ?thesis by (rule keep)
    qed
  qed
qed

lemma run_file_sorted:
  assumes "\<forall>k e. stored (dataFile s) k = Some e \<longrightarrow>
               sorted (map addedAt (links e)) \<and> (\<forall>l\<in>set (links e). addedAt l \<le> T)"
    and "sorted (postTimes reqs)" and "\<forall>t\<in>set (postTimes reqs). T \<le> t"
  shows "\<forall>k e. stored (dataFile (run rt False reqs s)) k = Some e \<longrightarrow>
               sorted (map addedAt (links e))"
  using assms
proof (induction reqs arbitrary: s T)
  case Nil
  then show ?case by simp
next
  case (Cons req reqs)
  obtain r s' where step: "handle rt False req s = (r, s')"
    by (cases "handle rt False req s")
  define T' where "T' = (case req of Post key req_body tk \<Rightarrow> newDate tk | _ \<Rightarrow> T)"
  have le: "T \<le> T'"
    using Cons.prems(3) by (cases req) (simp_all add: T'_def)
  have now: "\<forall>t\<in>set (postTimes [req]). t = T'"
    by (cases req) (simp_all add: T'_def)
  have rest: "sorted (postTimes reqs)" "\<forall>t\<in>set (postTimes reqs). T' \<le> t"
    using Cons.prems(2,3) by (cases req; simp add: T'_def)+
  from Cons.IH [OF handle_file_sorted [OF step Cons.prems(1) le now] rest] step
  show ?case by simp
qed

text \<open>
  Claim C4, as amended. For every known subject key and every state reached from the
  initial one by serving requests, \<open>getSubjectLinks\<close> answers 200 with a sequence
  sorted ascending by \<open>addedAt\<close>: in the database variant always (the query sorts); in
  the file variant, which returns the links in insertion order and never sorts,
  provided the clock readings of successive POSTs do not decrease.
\<close>

theorem listing_sorted_by_addedAt:
  assumes "key \<in> set (Object_keys SUBJECTS)"
    and "USE_DB \<or> sorted (postTimes reqs)"
  shows "\<exists>ls. fst (getSubjectLinks USE_DB key (run rt USE_DB reqs initialState))
            = Response 200 (LinksP ls)
          \<and> sorted (map addedAt ls)"
proof (cases USE_DB)
  case True
  have "sorted (map addedAt (Link_find key (collection (run rt True reqs initialState))))"
    unfolding Link_find_def by (rule sorted_sort_key)
  with assms(1) True show ?thesis
    by (simp add: getSubjectLinks_db_response)
next
  case False
  let ?s = "run rt False reqs initialState"
  have init: "\<forall>k e. stored (dataFile initialState) k = Some e \<longrightarrow>
               sorted (map addedAt (links e)) \<and> (\<forall>l\<in>set (links e). addedAt l \<le> 0)"
    by (auto simp: initialState_def stored_def dest: defaultJsonData_links)
  have "sorted (map addedAt (links_or_empty (js_get (stored (dataFile ?s)) key)))"
  proof (cases "stored (dataFile ?s) key")
    case None
    then show ?thesis
      by (simp add: js_get_def links_or_empty_def)
  next
    case (Some e)
    from assms(2) False have "sorted (postTimes reqs)" by simp
    from run_file_sorted [OF init this, of rt] Some have "sorted (map addedAt (links e))"
      by simp
    with Some show ?thesis
      by (simp add: js_get_def links_or_empty_def)
  qed
  with assms(1) False show ?thesis
    by (simp add: getSubjectLinks_file_response)
qed

lemma two_posts_same_subject_example:
  "fst (getSubjectLinks False ''toc'' (run exampleRuntime False
      [Post ''toc'' (Some \<lparr>b_title = Some ''T'', b_url = Some ''https://example.com'',
                             b_addedBy = None\<rparr>) \<lparr>dateNow = t1, newDate = t1, objectId = []\<rparr>,
       Post ''toc'' (Some \<lparr>b_title = Some ''U'', b_url = Some ''https://x.test/cn1'',
                             b_addedBy = None\<rparr>) \<lparr>dateNow = t2, newDate = t2, objectId = []\<rparr>]
      initialState))
   = Response 200 (LinksP
       [\<lparr>link_id = Some (toString36 t1), subjectKey = ''toc'', title = ''T'',
          url = ''https://example.com'', addedBy = ''admin'', addedAt = t1\<rparr>,
        \<lparr>link_id = Some (toString36 t2), subjectKey = ''toc'', title = ''U'',
          url = ''https://x.test/cn1'', addedBy = ''admin'', addedAt = t2\<rparr>])"
  by (simp add: addLink_def falsy_def or_else_def not_member_SUBJECTS_at Object_keys_def
        SUBJECTS_def exampleRuntime_def readJsonData_def Let_def initialState_def
        stored_def defaultJsonData_def js_get_def writeJsonData_def getSubjectLinks_def
        objectPrototypeKeys_def links_or_empty_def)

theorem listing_sorted_by_addedAt_witness:
  "\<exists>ls. fst (getSubjectLinks False ''toc'' (run exampleRuntime False
      [Post ''toc'' (Some \<lparr>b_title = Some ''T'', b_url = Some ''https://example.com'',
                             b_addedBy = None\<rparr>) \<lparr>dateNow = 1000, newDate = 1000, objectId = []\<rparr>,
       Post ''toc'' (Some \<lparr>b_title = Some ''U'', b_url = Some ''https://x.test/cn1'',
                             b_addedBy = None\<rparr>) \<lparr>dateNow = 1001, newDate = 1001, objectId = []\<rparr>]
      initialState)) = Response 200 (LinksP ls)
    \<and> sorted (map addedAt ls) \<and> length ls = 2"
proof -
  let ?reqs = "[Post ''toc'' (Some \<lparr>b_title = Some ''T'', b_url = Some ''https://example.com'',
                             b_addedBy = None\<rparr>) \<lparr>dateNow = 1000, newDate = 1000, objectId = []\<rparr>,
       Post ''toc'' (Some \<lparr>b_title = Some ''U'', b_url = Some ''https://x.test/cn1'',
                             b_addedBy = None\<rparr>) \<lparr>dateNow = 1001, newDate = 1001, objectId = []\<rparr>]"
  have known: "''toc'' \<in> set (Object_keys SUBJECTS)"
    by (simp add: Object_keys_def SUBJECTS_def)
  have clock: "False \<or> sorted (postTimes ?reqs)" by simp
  from listing_sorted_by_addedAt [OF known clock, of exampleRuntime] obtain ls where
    ls: "fst (getSubjectLinks False ''toc'' (run exampleRuntime False ?reqs initialState))
           = Response 200 (LinksP ls)" "sorted (map addedAt ls)"
    by blast
  from ls(1) have "length ls = 2"
    unfolding two_posts_same_subject_example by auto
  with ls show ?thesis by blast
qed

text \<open>C4 as stated fails: in the file variant, a POST at clock reading 50 followed by
  a POST at clock reading 40 (the clock was set back) is listed in insertion order,
  which is not ascending by \<open>addedAt\<close>.\<close>

theorem clock_set_back_counterexample:
  "fst (getSubjectLinks False ''toc'' (run exampleRuntime False
      [Post ''toc'' (Some \<lparr>b_title = Some ''T'', b_url = Some ''https://example.com'',
                             b_addedBy = None\<rparr>) \<lparr>dateNow = 50, newDate = 50, objectId = []\<rparr>,
       Post ''toc'' (Some \<lparr>b_title = Some ''U'', b_url = Some ''https://x.test/cn1'',
                             b_addedBy = None\<rparr>) \<lparr>dateNow = 40, newDate = 40, objectId = []\<rparr>]
      initialState))
   = Response 200 (LinksP
       [\<lparr>link_id = Some (toString36 50), subjectKey = ''toc'', title = ''T'',
          url = ''https://example.com'', addedBy = ''admin'', addedAt = 50\<rparr>,
        \<lparr>link_id = Some (toString36 40), subjectKey = ''toc'', title = ''U'',
          url = ''https://x.test/cn1'', addedBy = ''admin'', addedAt = 40\<rparr>])
   \<and> \<not> sorted (map addedAt
       [\<lparr>link_id = Some (toString36 50), subjectKey = ''toc'', title = ''T'',
          url = ''https://example.com'', addedBy = ''admin'', addedAt = 50\<rparr>,
        \<lparr>link_id = Some (toString36 40), subjectKey = ''toc'', title = ''U'',
          url = ''https://x.test/cn1'', addedBy = ''admin'', addedAt = 40\<rparr>])"
  unfolding two_posts_same_subject_example by simp

section \<open>Deleting a link\<close>

lemma findIndex_split:
  assumes "findIndex P xs = Some i"
  shows "\<exists>ps qs. xs = ps @ xs ! i # qs \<and> splice1 i xs = ps @ qs \<and> P (xs ! i)
           \<and> (\<forall>x\<in>set ps. \<not> P x)"
proof -
  from findIndex_Some [OF assms] have i: "i < length xs" "P (xs ! i)" "\<forall>j<i. \<not> P (xs ! j)"
    by simp_all
  have "\<forall>x\<in>set (take i xs). \<not> P x"
  proof
    fix x assume "x \<in> set (take i xs)"
    then obtain j where "j < length (take i xs)" "take i xs ! j = x"
      by (auto simp: in_set_conv_nth)
    with i(1,3) show "\<not> P x" by auto
  qed
  moreover have "xs = take i xs @ xs ! i # drop (Suc i) xs"
    using i(1) by (simp add: id_take_nth_drop)
  ultimately show ?thesis
    using i(2) unfolding splice1_def by blast
qed

text \<open>
  File variant, known key: \<open>deleteLink\<close> removes the first link of the subject whose
  \<open>_id\<close> is the one requested (leaving the other links of the subject and all other
  subjects as they were) and answers 200 with it; when the subject has no such link, it
  answers 404 and the document is as before.
\<close>

lemma deleteLink_file_contract:
  assumes "key \<in> set (Object_keys SUBJECTS)"
  shows "(\<exists>ps l qs s'.
            links_or_empty (js_get (stored (dataFile s)) key) = ps @ l # qs
            \<and> or_else (link_id l) [] = ident
            \<and> (\<forall>x\<in>set ps. or_else (link_id x) [] \<noteq> ident)
            \<and> deleteLink rt False key ident s = (Response 200 (LinkP l), s')
            \<and> links_or_empty (js_get (stored (dataFile s')) key) = ps @ qs
            \<and> (\<forall>k. k \<noteq> key \<longrightarrow> stored (dataFile s') k = stored (dataFile s) k))
       \<or> ((\<forall>x\<in>set (links_or_empty (js_get (stored (dataFile s)) key)).
               or_else (link_id x) [] \<noteq> ident)
            \<and> (\<exists>s'. deleteLink rt False key ident s = (Response 404 (ErrorMsg ''Link not found''), s')
                   \<and> stored (dataFile s') = stored (dataFile s)))"
proof -
  let ?list = "links_or_empty (js_get (stored (dataFile s)) key)"
  let ?P = "\<lambda>l. or_else (link_id l) [] = ident"
  have nm: "\<not> not_member (SUBJECTS_at key)" using assms by simp
  show ?thesis
  proof (cases "findIndex ?P ?list")
    case None
    then have "\<forall>x\<in>set ?list. \<not> ?P x" by (simp add: findIndex_None)
    moreover have "deleteLink rt False key ident s
        = (Response 404 (ErrorMsg ''Link not found''), s\<lparr>dataFile := Some (stored (dataFile s))\<rparr>)"
      using None nm by (simp add: deleteLink_def readJsonData_def Let_def)
    ultimately show ?thesis by simp
  next
    case (Some idx)
    from findIndex_split [OF Some] obtain ps qs where
      split: "?list = ps @ ?list ! idx # qs" "splice1 idx ?list = ps @ qs"
        "?P (?list ! idx)" "\<forall>x\<in>set ps. \<not> ?P x"
      by blast
    from split(1) have "?list \<noteq> []" by (metis snoc_eq_iff_butlast append_is_Nil_conv list.distinct(1))
    then obtain e where e: "stored (dataFile s) key = Some e" "links e = ?list"
      by (cases "stored (dataFile s) key")
         (auto simp: js_get_def links_or_empty_def split: if_splits)
    let ?s' = "s\<lparr>dataFile := Some ((stored (dataFile s))(key \<mapsto> e\<lparr>links := ps @ qs\<rparr>))\<rparr>"
    have "splice1 idx (links e) = ps @ qs"
      using split(2) by (simp only: e(2))
    moreover have "findIndex ?P (links e) = Some idx"
      using Some by (simp only: e(2))
    ultimately have del: "deleteLink rt False key ident s = (Response 200 (LinkP (links e ! idx)), ?s')"
      using nm e(1)
      by (simp add: deleteLink_def readJsonData_def writeJsonData_def Let_def js_get_def
            links_or_empty_def)
    then have del: "deleteLink rt False key ident s = (Response 200 (LinkP (?list ! idx)), ?s')"
      by (simp only: e(2))
    have after: "links_or_empty (js_get (stored (dataFile ?s')) key) = ps @ qs"
      by (simp add: js_get_def links_or_empty_def)
    have others: "\<forall>k. k \<noteq> key \<longrightarrow> stored (dataFile ?s') k = stored (dataFile s) k"
      by simp
    from split(1,3,4) del after others show ?thesis by blast
  qed
qed

text \<open>
  Database variant, known key, an id that casts to an ObjectId: \<open>deleteLink\<close> removes
  the first document with that \<open>_id\<close> and that \<open>subjectKey\<close> and answers 200 with it;
  when there is none, it answers 404 and the collection is as before.
\<close>

lemma deleteLink_db_contract:
  assumes "key \<in> set (Object_keys SUBJECTS)" and "castObjectId rt ident = Some oid"
  shows "(\<exists>ps l qs.
            collection s = ps @ l # qs
            \<and> link_id l = Some oid \<and> subjectKey l = key
            \<and> (\<forall>x\<in>set ps. \<not> (link_id x = Some oid \<and> subjectKey x = key))
            \<and> deleteLink rt True key ident s
                = (Response 200 (LinkP l), s\<lparr>collection := ps @ qs\<rparr>))
       \<or> ((\<forall>x\<in>set (collection s). \<not> (link_id x = Some oid \<and> subjectKey x = key))
            \<and> deleteLink rt True key ident s = (Response 404 (ErrorMsg ''Link not found''), s))"
proof -
  let ?P = "\<lambda>l. link_id l = Some oid \<and> subjectKey l = key"
  have nm: "\<not> not_member (SUBJECTS_at key)" using assms(1) by simp
  show ?thesis
  proof (cases "findIndex ?P (collection s)")
    case None
    then have "\<forall>x\<in>set (collection s). \<not> ?P x" by (simp add: findIndex_None)
    moreover have "deleteLink rt True key ident s = (Response 404 (ErrorMsg ''Link not found''), s)"
      using None nm assms(2) by (simp add: deleteLink_def Link_findOneAndDelete_def)
    ultimately show ?thesis by blast
  next
    case (Some idx)
    from findIndex_split [OF Some] obtain ps qs where
      split: "collection s = ps @ collection s ! idx # qs" "splice1 idx (collection s) = ps @ qs"
        "?P (collection s ! idx)" "\<forall>x\<in>set ps. \<not> ?P x"
      by blast
    have "deleteLink rt True key ident s
        = (Response 200 (LinkP (collection s ! idx)), s\<lparr>collection := ps @ qs\<rparr>)"
      using Some nm assms(2) split(2) by (simp add: deleteLink_def Link_findOneAndDelete_def)
    with split(1,3,4) show ?thesis by blast
  qed
qed

text \<open>
  Claim C7 holds for the file variant (\<open>deleteLink_file_contract\<close>) and, in the database
  variant, for ids that cast to an ObjectId (\<open>deleteLink_db_contract\<close>). It fails in the
  database variant for every other id: the query is rejected, and \<open>deleteLink\<close> answers
  500 "Failed to delete link" although no record has that id, where the claim says
  NotFound. The stored state is unchanged.
\<close>

theorem deleteLink_db_uncastable_id:
  assumes "key \<in> set (Object_keys SUBJECTS)" and "castObjectId rt ident = None"
  shows "deleteLink rt True key ident s = (Response 500 (ErrorMsg ''Failed to delete link''), s)"
  using assms by (simp add: deleteLink_def Link_findOneAndDelete_def)

theorem deleteLink_db_uncastable_id_witness:
  "deleteLink exampleRuntime True ''toc'' ''abc'' initialState
     = (Response 500 (ErrorMsg ''Failed to delete link''), initialState)"
  using deleteLink_db_uncastable_id [of "''toc''" exampleRuntime "''abc''" initialState]
  by (simp add: Object_keys_def SUBJECTS_def exampleRuntime_def)

text \<open>The file variant answers the same request with 404.\<close>

lemma deleteLink_file_unknown_id_example:
  "fst (deleteLink exampleRuntime False ''toc'' ''abc'' initialState)
     = Response 404 (ErrorMsg ''Link not found'')"
  by (simp add: deleteLink_def not_member_SUBJECTS_at Object_keys_def SUBJECTS_def
        readJsonData_def Let_def initialState_def stored_def defaultJsonData_def js_get_def
        links_or_empty_def)

section \<open>Adding a link and listing it: the round trip\<close>







end
